theory Spec2Isabelle
  imports Complex_Main "HOL-Library.Sublist"
begin

section \<open>MediRound: overdue-check computation and hourly bucketing\<close>

text \<open>
  The functions modelled here are the utilities of \<^verbatim>\<open>src/App.jsx\<close>:
  \<^verbatim>\<open>parseCheckTime\<close>, \<^verbatim>\<open>getCheckInsArray\<close>, \<^verbatim>\<open>getLastCheck\<close>,
  \<^verbatim>\<open>isPatientOverdue\<close>, and, inside \<^verbatim>\<open>RoundingGraph\<close>, the loop that builds the
  24 hourly slots and \<^verbatim>\<open>hasCheckInInSlot\<close>.
\<close>

subsection \<open>JavaScript values\<close>

text \<open>
  The code is untyped: a patient document, its \<^verbatim>\<open>checkIns\<close> field and every entry may
  be any JavaScript value. An object is the list of its own enumerable string-keyed
  properties in the order the engine enumerates them; an array is the list of its
  elements. Numbers are exact rationals, with \<open>JNaN\<close> apart; the rounding of doubles
  and the infinities are not modelled. A string is a list of characters; the strings
  handled here are ASCII, where a character is one UTF-16 code unit.
\<close>

datatype jsval =
    JUndefined
  | JNull
  | JBool bool
  | JNum rat
  | JNaN
  | JStr string
  | JArr "jsval list"
  | JObj "(string \<times> jsval) list"

datatype error = TypeError

text \<open>ToBoolean: what \<^verbatim>\<open>!v\<close>, \<^verbatim>\<open>v || w\<close> and \<^verbatim>\<open>filter(Boolean)\<close> test.\<close>

fun truthy :: "jsval \<Rightarrow> bool" where
  "truthy JUndefined = False"
| "truthy JNull = False"
| "truthy (JBool b) = b"
| "truthy (JNum r) = (r \<noteq> 0)"
| "truthy JNaN = False"
| "truthy (JStr s) = (s \<noteq> [])"
| "truthy (JArr xs) = True"
| "truthy (JObj ps) = True"

text \<open>\<^verbatim>\<open>a || b\<close>\<close>

definition orElse :: "jsval \<Rightarrow> jsval \<Rightarrow> jsval" where
  "orElse a b = (if truthy a then a else b)"

text \<open>
  \<^verbatim>\<open>v.k\<close> on a value that is neither null nor undefined, for a key \<open>k\<close> that no
  built-in prototype defines (the code reads \<^verbatim>\<open>checkIns\<close>, \<^verbatim>\<open>checkInInterval\<close>,
  \<^verbatim>\<open>time\<close> and \<^verbatim>\<open>staff\<close> only): an object gives its own property, everything else
  gives undefined.
\<close>

fun lookupProp :: "jsval \<Rightarrow> string \<Rightarrow> jsval" where
  "lookupProp (JObj ps) k = (case map_of ps k of Some v \<Rightarrow> v | None \<Rightarrow> JUndefined)"
| "lookupProp v k = JUndefined"

text \<open>\<^verbatim>\<open>v.k\<close> in general: reading a property of null or undefined throws.\<close>

definition nullish :: "jsval \<Rightarrow> bool" where
  "nullish v = (v = JNull \<or> v = JUndefined)"

definition getProp :: "jsval \<Rightarrow> string \<Rightarrow> error + jsval" where
  "getProp v k = (if nullish v then Inl TypeError else Inr (lookupProp v k))"

text \<open>
  \<^verbatim>\<open>Object.values(v)\<close>: the values of the own enumerable properties of \<open>ToObject(v)\<close>.
  A string object has one indexed property for each of its characters; a number or a
  boolean object has none. (On null and undefined it throws; the one call site passes a
  truthy value.)
\<close>

fun Object_values :: "jsval \<Rightarrow> jsval list" where
  "Object_values (JObj ps) = map snd ps"
| "Object_values (JArr xs) = xs"
| "Object_values (JStr s) = map (\<lambda>c. JStr [c]) s"
| "Object_values v = []"

subsection \<open>The runtime\<close>

text \<open>
  What the code takes from the JavaScript engine and its host is a parameter of the
  model:
  \<^item> \<open>Date_parse s\<close> is the time value, in milliseconds since the epoch, of
    \<^verbatim>\<open>new Date(s)\<close>, and \<open>None\<close> when that date is invalid (its time value is NaN).
    ECMAScript leaves the parsing of strings that are not in its ISO format to the
    implementation.
  \<^item> \<open>toLocaleString t\<close> is \<^verbatim>\<open>new Date(t).toLocaleString()\<close> in the host's locale
    and time zone.
  \<^item> \<open>LocalTZA t isUTC\<close> is the offset of local time in milliseconds: at the UTC
    instant \<open>t\<close> when \<open>isUTC\<close>, and for the local time \<open>t\<close> otherwise.
  \<^item> \<open>ToNumberOther v\<close> is \<open>ToNumber(v)\<close> for a string, an array or an object
    (\<open>None\<close> is NaN).
  A date object is modelled by its time value; the clock \<^verbatim>\<open>Date.now()\<close> is the
  argument \<open>now\<close> of the functions that read it.
\<close>

record runtime =
  Date_parse :: "string \<Rightarrow> int option"
  toLocaleString :: "int \<Rightarrow> string"
  LocalTZA :: "int \<Rightarrow> bool \<Rightarrow> int"
  ToNumberOther :: "jsval \<Rightarrow> rat option"

subsection \<open>parseCheckTime\<close>

text \<open>
  \<^verbatim>\<open>str.replace(pat, rep)\<close> with a string pattern replaces the first occurrence of
  \<open>pat\<close> only (\<open>rep\<close> holds no \<^verbatim>\<open>$\<close> here).
\<close>

fun replaceFirst :: "string \<Rightarrow> string \<Rightarrow> string \<Rightarrow> string" where
  "replaceFirst pat rep [] = (if pat = [] then rep else [])"
| "replaceFirst pat rep (c # cs) =
     (if prefix pat (c # cs) then rep @ drop (length pat) (c # cs)
      else c # replaceFirst pat rep cs)"

definition isDigit :: "char \<Rightarrow> bool" where
  "isDigit c = (c \<in> set ''0123456789'')"

definition isSign :: "char \<Rightarrow> bool" where
  "isSign c = (c = CHR ''+'' \<or> c = CHR ''-'')"

text \<open>
  Does \<^verbatim>\<open>/UTC([+-]\d+)/\<close> match at the start of the string: the letters, one sign, at
  least one digit.
\<close>

definition matchUTC :: "string \<Rightarrow> bool" where
  "matchUTC s = (prefix ''UTC'' s \<and>
     (case drop 3 s of sg # d # _ \<Rightarrow> isSign sg \<and> isDigit d | _ \<Rightarrow> False))"

text \<open>
  \<^verbatim>\<open>.replace(/UTC([+-]\d+)/, "GMT$1")\<close>: the pattern has no \<^verbatim>\<open>g\<close> flag and no anchor,
  so the leftmost match is replaced, wherever it is, and nothing after it. Group 1 is
  the sign with all the digits that follow (\<^verbatim>\<open>\d+\<close> is greedy).
\<close>

fun replaceUTC :: "string \<Rightarrow> string" where
  "replaceUTC [] = []"
| "replaceUTC (c # cs) =
     (if matchUTC (c # cs) then
        (let sg = (c # cs) ! 3;
             ds = takeWhile isDigit (drop 4 (c # cs));
             rest = dropWhile isDigit (drop 4 (c # cs))
         in ''GMT'' @ (sg # ds) @ rest)
      else c # replaceUTC cs)"

definition cleaned :: "string \<Rightarrow> string" where
  "cleaned str = replaceUTC (replaceFirst '' at '' '' '' str)"

text \<open>
  \<^verbatim>\<open>
  function parseCheckTime(str) {
    if (!str || typeof str !== "string") return null;
    try {
      const cleaned = str.replace(" at ", " ").replace(/UTC([+-]\d+)/, "GMT$1");
      const d = new Date(cleaned);
      return isNaN(d.getTime()) ? null : d;
    } catch { return null; }
  }
  \<close>
  The result is the date's time value, \<open>None\<close> for null. Nothing escapes the
  \<^verbatim>\<open>try\<close>, so the function has no error result.
\<close>

fun parseCheckTime :: "runtime \<Rightarrow> jsval \<Rightarrow> int option" where
  "parseCheckTime rt (JStr str) =
     (if str = [] then None else Date_parse rt (cleaned str))"
| "parseCheckTime rt v = None"

subsection \<open>getCheckInsArray\<close>

text \<open>
  \<^verbatim>\<open>
  function getCheckInsArray(patient) {
    if (!patient || !patient.checkIns) return [];
    if (Array.isArray(patient.checkIns)) return patient.checkIns;
    return Object.values(patient.checkIns);
  }
  \<close>
  \<^verbatim>\<open>patient.checkIns\<close> is read only when \<^verbatim>\<open>patient\<close> is truthy, so it cannot throw.
\<close>

fun isArray :: "jsval \<Rightarrow> bool" where
  "isArray (JArr xs) = True"
| "isArray v = False"

definition getCheckInsArray :: "jsval \<Rightarrow> jsval list" where
  "getCheckInsArray patient =
     (if \<not> truthy patient \<or> \<not> truthy (lookupProp patient ''checkIns'') then []
      else if isArray (lookupProp patient ''checkIns'')
        then (case lookupProp patient ''checkIns'' of JArr xs \<Rightarrow> xs | _ \<Rightarrow> [])
      else Object_values (lookupProp patient ''checkIns''))"

subsection \<open>getLastCheck\<close>

text \<open>The object \<^verbatim>\<open>{ display, date, staff, isOverdue }\<close> that \<^verbatim>\<open>getLastCheck\<close> returns.\<close>

record lastCheck =
  display :: string
  date :: "int option"
  staff :: jsval
  isOverdue :: bool

definition noneCheck :: lastCheck where
  "noneCheck = \<lparr>display = ''None'', date = None, staff = JStr [], isOverdue = True\<rparr>"

text \<open>
  \<^verbatim>\<open>arr.map((entry) => { const date = parseCheckTime(entry.time);
                           return date ? { ...entry, date } : null; })\<close>
  The copy \<^verbatim>\<open>{ ...entry, date }\<close> is the pair of the entry and its date. Reading
  \<^verbatim>\<open>entry.time\<close> throws when the entry is null or undefined, and the exception leaves
  \<^verbatim>\<open>getLastCheck\<close>.
\<close>

fun mapEntries :: "runtime \<Rightarrow> jsval list \<Rightarrow> error + (jsval \<times> int) option list" where
  "mapEntries rt [] = Inr []"
| "mapEntries rt (entry # es) =
     (case getProp entry ''time'' of
        Inl err \<Rightarrow> Inl err
      | Inr tm \<Rightarrow>
          (case mapEntries rt es of
             Inl err \<Rightarrow> Inl err
           | Inr rs \<Rightarrow>
               Inr ((case parseCheckTime rt tm of
                       Some d \<Rightarrow> Some (entry, d)
                     | None \<Rightarrow> None) # rs)))"

text \<open>\<^verbatim>\<open>.filter(Boolean)\<close> drops the nulls.\<close>

definition filterBoolean :: "'a option list \<Rightarrow> 'a list" where
  "filterBoolean rs = List.map_filter (\<lambda>r. r) rs"

text \<open>
  \<^verbatim>\<open>.sort((a, b) => b.date - a.date)\<close>: the comparator orders by date, latest first;
  \<^verbatim>\<open>Array.prototype.sort\<close> is stable, as insertion sort on the key \<open>- date\<close> is.
\<close>

definition sortLatestFirst :: "(jsval \<times> int) list \<Rightarrow> (jsval \<times> int) list" where
  "sortLatestFirst ps = sort_key (\<lambda>p. - snd p) ps"

text \<open>
  \<^verbatim>\<open>(Date.now() - latest.date.getTime()) / (1000 * 60)\<close>. The quotient here is exact.
  The code's is the double nearest to it; the two compare alike with an integer as long
  as the two instants are at most \<open>2^53\<close> ms apart (the subtraction is then exact, and a
  quotient that is not the integer itself is at least 1/60000 away from it, more than
  half the distance between neighbouring doubles of that size). They may compare
  differently with a number that is not an integer.
\<close>

definition minutesSince :: "int \<Rightarrow> int \<Rightarrow> rat" where
  "minutesSince now t = of_int (now - t) / (1000 * 60)"

text \<open>ToNumber; \<open>None\<close> is NaN.\<close>

fun ToNumber :: "runtime \<Rightarrow> jsval \<Rightarrow> rat option" where
  "ToNumber rt JUndefined = None"
| "ToNumber rt JNull = Some 0"
| "ToNumber rt (JBool b) = Some (if b then 1 else 0)"
| "ToNumber rt (JNum r) = Some r"
| "ToNumber rt JNaN = None"
| "ToNumber rt v = ToNumberOther rt v"

text \<open>\<^verbatim>\<open>m > v\<close> for a number \<open>m\<close>: false when \<open>v\<close> converts to NaN.\<close>

definition jsGreater :: "runtime \<Rightarrow> rat \<Rightarrow> jsval \<Rightarrow> bool" where
  "jsGreater rt m v = (case ToNumber rt v of Some n \<Rightarrow> m > n | None \<Rightarrow> False)"

text \<open>
  \<^verbatim>\<open>
  function getLastCheck(patient) {
    const arr = getCheckInsArray(patient);
    if (!arr.length) return { display: "None", date: null, staff: "", isOverdue: true };
    const parsed = arr.map(...).filter(Boolean).sort((a, b) => b.date - a.date);
    if (!parsed.length) return { display: "None", date: null, staff: "", isOverdue: true };
    const latest = parsed[0];
    const minutesSince = (Date.now() - latest.date.getTime()) / (1000 * 60);
    const interval = patient.checkInInterval || 0;
    return { display: latest.date.toLocaleString(), date: latest.date,
             staff: latest.staff || "", isOverdue: minutesSince > interval };
  }
  \<close>
  When \<open>parsed\<close> is not empty the patient is truthy, so \<^verbatim>\<open>patient.checkInInterval\<close>
  does not throw; \<^verbatim>\<open>latest.staff\<close> is the entry's own \<^verbatim>\<open>staff\<close>.
\<close>

definition getLastCheck :: "runtime \<Rightarrow> int \<Rightarrow> jsval \<Rightarrow> error + lastCheck" where
  "getLastCheck rt now patient =
     (let arr = getCheckInsArray patient in
      if arr = [] then Inr noneCheck
      else
        (case mapEntries rt arr of
           Inl err \<Rightarrow> Inl err
         | Inr rs \<Rightarrow>
             (case sortLatestFirst (filterBoolean rs) of
                [] \<Rightarrow> Inr noneCheck
              | latest # _ \<Rightarrow>
                  (let interval = orElse (lookupProp patient ''checkInInterval'') (JNum 0)
                   in Inr \<lparr>display = toLocaleString rt (snd latest),
                           date = Some (snd latest),
                           staff = orElse (lookupProp (fst latest) ''staff'') (JStr []),
                           isOverdue = jsGreater rt (minutesSince now (snd latest)) interval\<rparr>))))"

text \<open>\<^verbatim>\<open>function isPatientOverdue(patient) { return getLastCheck(patient).isOverdue; }\<close>\<close>

definition isPatientOverdue :: "runtime \<Rightarrow> int \<Rightarrow> jsval \<Rightarrow> error + bool" where
  "isPatientOverdue rt now patient =
     (case getLastCheck rt now patient of Inl err \<Rightarrow> Inl err | Inr r \<Rightarrow> Inr (isOverdue r))"

subsection \<open>The hourly slots of RoundingGraph\<close>

text \<open>
  \<^verbatim>\<open>d.setMinutes(0, 0, 0)\<close> works in local time: the time value \<open>t\<close> becomes the
  local time \<open>t + LocalTZA(t, true)\<close>, whose minutes, seconds and milliseconds are set
  to zero, and the result is taken back to UTC with the offset that holds for that
  local time, \<open>LocalTZA(local, false)\<close>.
\<close>

definition msPerHour :: int where
  "msPerHour = 3600000"

definition setMinutes0 :: "runtime \<Rightarrow> int \<Rightarrow> int" where
  "setMinutes0 rt t =
     (let local = t + LocalTZA rt t True;
          local0 = local - local mod msPerHour
      in local0 - LocalTZA rt local0 False)"

text \<open>
  \<^verbatim>\<open>
  // build 24 hourly slots ending at current hour
  const now = new Date();
  const slots = [];
  for (let i = 23; i >= 0; i--) {
    const d = new Date(now.getTime() - i * 3600000);
    d.setMinutes(0, 0, 0);
    slots.push(d);
  }
  \<close>
  \<open>slotsFrom rt now n\<close> is what the loop pushes from \<open>i = n - 1\<close> down to \<open>0\<close>.
\<close>

fun slotsFrom :: "runtime \<Rightarrow> int \<Rightarrow> nat \<Rightarrow> int list" where
  "slotsFrom rt now 0 = []"
| "slotsFrom rt now (Suc i) = setMinutes0 rt (now - int i * 3600000) # slotsFrom rt now i"

definition buildSlots :: "runtime \<Rightarrow> int \<Rightarrow> int list" where
  "buildSlots rt now = slotsFrom rt now 24"

text \<open>
  \<^verbatim>\<open>
  function hasCheckInInSlot(patient, slot) {
    const start = slot.getTime();
    const end = start + 3600000;
    return getCheckInsArray(patient).some((ci) => {
      const d = parseCheckTime(ci.time);
      if (!d) return false;
      const t = d.getTime();
      return t >= start && t < end;
    });
  }
  \<close>
  \<^verbatim>\<open>some\<close> stops at the first entry for which the callback is true; an entry that
  is null or undefined makes the callback throw.
\<close>

fun someInSlot :: "runtime \<Rightarrow> int \<Rightarrow> int \<Rightarrow> jsval list \<Rightarrow> error + bool" where
  "someInSlot rt start end [] = Inr False"
| "someInSlot rt start end (ci # others) =
     (case getProp ci ''time'' of
        Inl err \<Rightarrow> Inl err
      | Inr tm \<Rightarrow>
          (case parseCheckTime rt tm of
             None \<Rightarrow> someInSlot rt start end others
           | Some t \<Rightarrow>
               if t \<ge> start \<and> t < end then Inr True
               else someInSlot rt start end others))"

definition hasCheckInInSlot :: "runtime \<Rightarrow> jsval \<Rightarrow> int \<Rightarrow> error + bool" where
  "hasCheckInInSlot rt patient slot =
     (let start = slot; end = start + 3600000
      in someInSlot rt start end (getCheckInsArray patient))"

subsection \<open>Notions used to state the properties\<close>

text \<open>The instant of one entry, when the entry can be read: \<^verbatim>\<open>parseCheckTime(entry.time)\<close>.\<close>

definition entryInstant :: "runtime \<Rightarrow> jsval \<Rightarrow> int option" where
  "entryInstant rt entry = parseCheckTime rt (lookupProp entry ''time'')"

text \<open>The instants of the entries that normalize, in the order of the entries.\<close>

definition validInstants :: "runtime \<Rightarrow> jsval list \<Rightarrow> int list" where
  "validInstants rt arr = List.map_filter (entryInstant rt) arr"

text \<open>Every entry is something a property can be read from.\<close>

definition readable :: "jsval list \<Rightarrow> bool" where
  "readable arr = list_all (\<lambda>e. \<not> nullish e) arr"

text \<open>The entries that normalize, each with its instant: what \<open>filterBoolean\<close> keeps.\<close>

definition parsedOf :: "runtime \<Rightarrow> jsval list \<Rightarrow> (jsval \<times> int) list" where
  "parsedOf rt arr = List.map_filter (\<lambda>e. map_option (Pair e) (entryInstant rt e)) arr"

text \<open>
  \<open>k\<close> is the first position of \<open>s\<close> at which \<open>P\<close> holds of the rest of the string:
  where a search from the left finds its first match.
\<close>

definition firstMatch :: "(string \<Rightarrow> bool) \<Rightarrow> string \<Rightarrow> nat \<Rightarrow> bool" where
  "firstMatch P s k = (k \<le> length s \<and> P (drop k s) \<and> (\<forall>j < k. \<not> P (drop j s)))"

subsection \<open>Example hosts and patients\<close>

text \<open>
  A host on UTC whose date parser knows two timestamps of 20 November 2025
  (05:55:25 and 07:50:25 UTC) and rejects every other string.
\<close>

definition exampleHost :: runtime where
  "exampleHost =
     \<lparr>Date_parse = map_of
        [(''November 20, 2025 12:55:25 AM GMT-5'', 1763618125000),
         (''November 20, 2025 2:50:25 AM GMT-5'', 1763625025000)],
      toLocaleString = (\<lambda>t. if t = 1763618125000 then ''11/20/2025, 5:55:25 AM''
                            else if t = 1763625025000 then ''11/20/2025, 7:50:25 AM''
                            else ''another date''),
      LocalTZA = (\<lambda>t isUTC. 0),
      ToNumberOther = (\<lambda>v. None)\<rparr>"

text \<open>
  A host in the zone of New York around 2 November 2025. Daylight-saving time ends at
  06:00 UTC (the instant 1762063200000): the offset goes from -4 h to -5 h, and the local
  hour from 01:00 to 02:00 happens twice. A local time in the repeated hour is read with
  the offset before the transition, as ECMAScript prescribes, so local times before
  02:00 (1762048800000 on the local scale) are daylight-saving times.
\<close>

definition newYorkHost :: runtime where
  "newYorkHost =
     \<lparr>Date_parse = (\<lambda>s. None),
      toLocaleString = (\<lambda>t. []),
      LocalTZA = (\<lambda>t isUTC.
        if isUTC then (if t < 1762063200000 then - 14400000 else - 18000000)
        else (if t < 1762048800000 then - 14400000 else - 18000000)),
      ToNumberOther = (\<lambda>v. None)\<rparr>"


definition entryA :: jsval where
  "entryA = JObj [(''time'', JStr ''November 20, 2025 at 12:55:25 AM UTC-5''),
                  (''staff'', JStr ''A'')]"

definition entryB :: jsval where
  "entryB = JObj [(''time'', JStr ''November 20, 2025 at 2:50:25 AM UTC-5''),
                  (''staff'', JStr ''B'')]"

definition entryBad :: jsval where
  "entryBad = JObj [(''time'', JStr ''garbage''), (''staff'', JStr ''C'')]"

definition patientAB :: jsval where
  "patientAB = JObj [(''name'', JStr ''P''), (''checkInInterval'', JNum 60),
                     (''checkIns'', JArr [entryA, entryB])]"

definition patientBA :: jsval where
  "patientBA = JObj [(''name'', JStr ''Q''), (''location'', JStr ''4 West''),
                     (''checkInInterval'', JNum 60),
                     (''checkIns'', JObj [(''k2'', entryB), (''k1'', entryA)])]"

definition patientA :: jsval where
  "patientA = JObj [(''checkInInterval'', JNum 60), (''checkIns'', JArr [entryA])]"

definition patientBad :: jsval where
  "patientBad = JObj [(''checkInInterval'', JNum 60), (''checkIns'', JArr [entryBad])]"

definition patientEmpty :: jsval where
  "patientEmpty = JObj [(''checkInInterval'', JNum 60), (''checkIns'', JArr [])]"

section \<open>Properties\<close>

subsection \<open>The examples, evaluated\<close>

lemma entryA_instant: "entryInstant exampleHost entryA = Some 1763618125000"
  by (simp add: entryInstant_def entryA_def exampleHost_def cleaned_def matchUTC_def
      isSign_def isDigit_def)

lemma entryB_instant: "entryInstant exampleHost entryB = Some 1763625025000"
  by (simp add: entryInstant_def entryB_def exampleHost_def cleaned_def matchUTC_def
      isSign_def isDigit_def)

lemma entryBad_instant: "entryInstant exampleHost entryBad = None"
  by (simp add: entryInstant_def entryBad_def exampleHost_def cleaned_def matchUTC_def
      isSign_def isDigit_def)

lemma entries_not_nullish: "\<not> nullish entryA" "\<not> nullish entryB" "\<not> nullish entryBad"
  by (simp_all add: nullish_def entryA_def entryB_def entryBad_def)

lemma entry_staff:
  "lookupProp entryA ''staff'' = JStr ''A''" "lookupProp entryB ''staff'' = JStr ''B''"
  by (simp_all add: entryA_def entryB_def)

lemma example_checkIns:
  "getCheckInsArray patientAB = [entryA, entryB]"
  "getCheckInsArray patientBA = [entryB, entryA]"
  "getCheckInsArray patientA = [entryA]"
  "getCheckInsArray patientBad = [entryBad]"
  "getCheckInsArray patientEmpty = []"
  by (simp_all add: getCheckInsArray_def patientAB_def patientBA_def patientA_def
      patientBad_def patientEmpty_def)

lemma example_interval:
  "lookupProp patientAB ''checkInInterval'' = JNum 60"
  "lookupProp patientBA ''checkInInterval'' = JNum 60"
  "lookupProp patientA ''checkInInterval'' = JNum 60"
  by (simp_all add: patientAB_def patientBA_def patientA_def)

subsection \<open>parseCheckTime\<close>

text \<open>
  C9. \<^verbatim>\<open>parseCheckTime\<close> returns null for every value that is not a string, null and
  undefined among them, and for every string whose cleaned form the date parser rejects;
  it has no error result, so it returns null where it might have thrown. The string
  \<^verbatim>\<open>"garbage"\<close> is passed to the parser unchanged, and gives null on every host whose
  parser rejects it.
\<close>

theorem parseCheckTime_null:
  "((\<forall>s. v \<noteq> JStr s) \<longrightarrow> parseCheckTime rt v = None) \<and>
   parseCheckTime rt JNull = None \<and>
   parseCheckTime rt JUndefined = None \<and>
   (Date_parse rt (cleaned str) = None \<longrightarrow> parseCheckTime rt (JStr str) = None) \<and>
   cleaned ''garbage'' = ''garbage'' \<and>
   (Date_parse rt ''garbage'' = None \<longrightarrow> parseCheckTime rt (JStr ''garbage'') = None)"
proof (intro conjI impI)
  show "parseCheckTime rt v = None" if "\<forall>s. v \<noteq> JStr s"
    using that by (cases v) simp_all
  show "parseCheckTime rt (JStr str) = None" if "Date_parse rt (cleaned str) = None"
    using that by simp
  show g: "cleaned ''garbage'' = ''garbage''"
    by (simp add: cleaned_def matchUTC_def)
  show "parseCheckTime rt (JStr ''garbage'') = None" if "Date_parse rt ''garbage'' = None"
    using that g by simp
qed simp_all

theorem parseCheckTime_null_witness:
  "parseCheckTime exampleHost (JNum 5) = None \<and>
   parseCheckTime exampleHost (JStr ''November 31, 2025 at noon'') = None \<and>
   parseCheckTime exampleHost (JStr ''garbage'') = None"
proof -
  have a: "\<forall>s. JNum 5 \<noteq> JStr s"
    by simp
  have b: "Date_parse exampleHost (cleaned ''November 31, 2025 at noon'') = None"
    by (simp add: exampleHost_def cleaned_def matchUTC_def)
  have c: "Date_parse exampleHost ''garbage'' = None"
    by (simp add: exampleHost_def)
  show ?thesis
    using a b c
      parseCheckTime_null [where v = "JNum 5" and rt = exampleHost
        and str = "''November 31, 2025 at noon''"]
    by simp
qed

lemma replaceFirst_at:
  "firstMatch (prefix pat) s k \<Longrightarrow> pat \<noteq> [] \<Longrightarrow>
   replaceFirst pat rep s = take k s @ rep @ drop (k + length pat) s"
proof (induction s arbitrary: k)
  case Nil
  then show ?case by (simp add: firstMatch_def)
next
  case (Cons c cs)
  show ?case
  proof (cases k)
    case 0
    with Cons.prems show ?thesis by (simp add: firstMatch_def)
  next
    case (Suc k')
    with Cons.prems have no: "\<not> prefix pat (c # cs)"
      by (auto simp: firstMatch_def)
    have "firstMatch (prefix pat) cs k'"
      using Cons.prems Suc unfolding firstMatch_def
      by (auto dest: spec [of _ "Suc _"])
    from Cons.IH [OF this Cons.prems(2)] no Suc show ?thesis by simp
  qed
qed

lemma replaceFirst_none:
  "\<forall>k. \<not> prefix pat (drop k s) \<Longrightarrow> replaceFirst pat rep s = s"
proof (induction s)
  case Nil
  then show ?case by auto
next
  case (Cons c cs)
  have "\<not> prefix pat (c # cs)"
    using Cons.prems [rule_format, of 0] by simp
  moreover have "\<forall>k. \<not> prefix pat (drop k cs)"
    using Cons.prems by (auto dest: spec [of _ "Suc _"])
  ultimately show ?case using Cons.IH by simp
qed

lemma matchUTC_shape:
  "matchUTC m \<longleftrightarrow> (\<exists>sg d r. m = ''UTC'' @ sg # d # r \<and> isSign sg \<and> isDigit d)"
proof
  assume "matchUTC m"
  then obtain zs where m: "m = ''UTC'' @ zs"
    by (auto simp: matchUTC_def prefix_def)
  with \<open>matchUTC m\<close> show "\<exists>sg d r. m = ''UTC'' @ sg # d # r \<and> isSign sg \<and> isDigit d"
    by (auto simp: matchUTC_def split: list.splits)
next
  assume "\<exists>sg d r. m = ''UTC'' @ sg # d # r \<and> isSign sg \<and> isDigit d"
  then show "matchUTC m"
    by (auto simp: matchUTC_def)
qed

lemma replaceUTC_match:
  assumes "matchUTC (c # cs)"
  shows "replaceUTC (c # cs) = ''GMT'' @ drop 3 (c # cs)"
proof -
  from assms obtain sg d r where m: "c # cs = ''UTC'' @ sg # d # r"
    unfolding matchUTC_shape by blast
  have "replaceUTC (c # cs) =
      ''GMT'' @ ((c # cs) ! 3 # takeWhile isDigit (drop 4 (c # cs))) @
        dropWhile isDigit (drop 4 (c # cs))"
    using assms by (simp add: Let_def)
  also have "\<dots> = ''GMT'' @ drop 3 (c # cs)"
    unfolding m by simp
  finally show ?thesis .
qed

lemma replaceUTC_at:
  "firstMatch matchUTC s k \<Longrightarrow> replaceUTC s = take k s @ ''GMT'' @ drop (k + 3) s"
proof (induction s arbitrary: k)
  case Nil
  then show ?case by (simp add: firstMatch_def matchUTC_def)
next
  case (Cons c cs)
  show ?case
  proof (cases k)
    case 0
    with Cons.prems have "matchUTC (c # cs)"
      by (simp add: firstMatch_def)
    from replaceUTC_match [OF this] 0 show ?thesis by simp
  next
    case (Suc k')
    with Cons.prems have no: "\<not> matchUTC (c # cs)"
      by (auto simp: firstMatch_def)
    have "firstMatch matchUTC cs k'"
      using Cons.prems Suc unfolding firstMatch_def
      by (auto dest: spec [of _ "Suc _"])
    from Cons.IH [OF this] no Suc show ?thesis by (simp add: eval_nat_numeral)
  qed
qed

lemma replaceUTC_none:
  "\<forall>k. \<not> matchUTC (drop k s) \<Longrightarrow> replaceUTC s = s"
proof (induction s)
  case Nil
  then show ?case by simp
next
  case (Cons c cs)
  have "\<not> matchUTC (c # cs)"
    using Cons.prems [rule_format, of 0] by simp
  moreover have "\<forall>k. \<not> matchUTC (drop k cs)"
    using Cons.prems by (auto dest: spec [of _ "Suc _"])
  ultimately show ?case using Cons.IH by simp
qed


text \<open>
  C2, as amended. \<^verbatim>\<open>parseCheckTime\<close> passes to the date parser the string in which the
  first occurrence of \<^verbatim>\<open>" at "\<close> is replaced by one space and then the leftmost
  \<^verbatim>\<open>UTC\<close> that a sign and a digit follow is replaced by \<^verbatim>\<open>GMT\<close>, wherever it stands;
  the sign and the digits after it, and all the rest of the string, stay as they are. A
  string without the sequence, or without such a marker, is left unchanged by that step.
  In particular \<^verbatim>\<open>"November 20, 2025 at 12:55:25 AM UTC-5"\<close> is parsed as
  \<^verbatim>\<open>"November 20, 2025 12:55:25 AM GMT-5"\<close>.
\<close>

theorem parseCheckTime_substitution:
  "(str \<noteq> [] \<longrightarrow>
      parseCheckTime rt (JStr str) =
        Date_parse rt (replaceUTC (replaceFirst '' at '' '' '' str))) \<and>
   (firstMatch (prefix '' at '') s i \<longrightarrow>
      replaceFirst '' at '' '' '' s = take i s @ '' '' @ drop (i + 4) s) \<and>
   ((\<forall>j. \<not> prefix '' at '' (drop j s')) \<longrightarrow> replaceFirst '' at '' '' '' s' = s') \<and>
   (firstMatch matchUTC u k \<longrightarrow> replaceUTC u = take k u @ ''GMT'' @ drop (k + 3) u) \<and>
   ((\<forall>j. \<not> matchUTC (drop j u')) \<longrightarrow> replaceUTC u' = u') \<and>
   parseCheckTime rt (JStr ''November 20, 2025 at 12:55:25 AM UTC-5'') =
     Date_parse rt ''November 20, 2025 12:55:25 AM GMT-5''"
proof (intro conjI impI)
  show "parseCheckTime rt (JStr str) =
      Date_parse rt (replaceUTC (replaceFirst '' at '' '' '' str))" if "str \<noteq> []"
    using that by (simp add: cleaned_def)
  show "replaceFirst '' at '' '' '' s = take i s @ '' '' @ drop (i + 4) s"
    if "firstMatch (prefix '' at '') s i"
    using replaceFirst_at [OF that, of "'' ''"] by (simp add: eval_nat_numeral)
  show "replaceFirst '' at '' '' '' s' = s'" if "\<forall>j. \<not> prefix '' at '' (drop j s')"
    using that by (rule replaceFirst_none)
  show "replaceUTC u = take k u @ ''GMT'' @ drop (k + 3) u" if "firstMatch matchUTC u k"
    using that by (rule replaceUTC_at)
  show "replaceUTC u' = u'" if "\<forall>j. \<not> matchUTC (drop j u')"
    using that by (rule replaceUTC_none)
  show "parseCheckTime rt (JStr ''November 20, 2025 at 12:55:25 AM UTC-5'') =
     Date_parse rt ''November 20, 2025 12:55:25 AM GMT-5''"
    by (simp add: cleaned_def matchUTC_def isSign_def isDigit_def)
qed

theorem parseCheckTime_substitution_witness:
  "parseCheckTime exampleHost (JStr ''November 20, 2025 at 12:55:25 AM UTC-5'') =
     Some 1763618125000 \<and>
   replaceFirst '' at '' '' '' ''November 20, 2025 at 12:55:25 AM UTC-5'' =
     ''November 20, 2025 12:55:25 AM UTC-5'' \<and>
   replaceFirst '' at '' '' '' ''garbage'' = ''garbage'' \<and>
   replaceUTC ''November 20, 2025 12:55:25 AM UTC-5'' =
     ''November 20, 2025 12:55:25 AM GMT-5'' \<and>
   replaceUTC ''garbage'' = ''garbage''"
proof -
  have a: "firstMatch (prefix '' at '') ''November 20, 2025 at 12:55:25 AM UTC-5'' 17"
    by (simp add: firstMatch_def All_less_Suc numeral_eq_Suc)
  have b: "\<forall>j. \<not> prefix '' at '' (drop j ''garbage'')"
    by (auto simp: drop_Cons split: nat.splits)
  have c: "firstMatch matchUTC ''November 20, 2025 12:55:25 AM UTC-5'' 30"
    by (simp add: firstMatch_def matchUTC_def isSign_def isDigit_def All_less_Suc
        numeral_eq_Suc)
  have d: "\<forall>j. \<not> matchUTC (drop j ''garbage'')"
    by (auto simp: drop_Cons matchUTC_def split: nat.splits)
  show ?thesis
    using a b c d
      parseCheckTime_substitution [where str = "''November 20, 2025 at 12:55:25 AM UTC-5''"
        and rt = exampleHost
        and s = "''November 20, 2025 at 12:55:25 AM UTC-5''" and i = 17
        and s' = "''garbage''"
        and u = "''November 20, 2025 12:55:25 AM UTC-5''" and k = 30
        and u' = "''garbage''"]
    by (simp add: exampleHost_def)
qed

text \<open>
  C2 as stated speaks of a trailing marker. With two markers the code rewrites the first
  and leaves the trailing one.
\<close>

theorem cleaned_trailing_marker_counterexample:
  "cleaned ''UTC+1 UTC-5'' = ''GMT+1 UTC-5'' \<and> cleaned ''UTC+1 UTC-5'' \<noteq> ''UTC+1 GMT-5''"
  by (simp add: cleaned_def matchUTC_def isSign_def isDigit_def)

subsection \<open>getCheckInsArray\<close>

text \<open>
  C4, as amended. \<^verbatim>\<open>getCheckInsArray\<close> returns the empty array when the patient is
  absent (or otherwise falsy) and when it has no \<^verbatim>\<open>checkIns\<close> field, the array itself
  when \<^verbatim>\<open>checkIns\<close> is an array, and the values of the mapping, in the order of its
  properties, when \<^verbatim>\<open>checkIns\<close> is an object. Of the other shapes, null, a boolean
  and a number give the empty array, and a string gives the array of its characters,
  each as a string of length one (empty only for the empty string).
\<close>

theorem getCheckInsArray_shapes:
  "getCheckInsArray JUndefined = [] \<and>
   getCheckInsArray JNull = [] \<and>
   (\<not> truthy patient \<longrightarrow> getCheckInsArray patient = []) \<and>
   (lookupProp patient ''checkIns'' = JUndefined \<longrightarrow> getCheckInsArray patient = []) \<and>
   (truthy patient \<and> lookupProp patient ''checkIns'' = JArr xs \<longrightarrow>
      getCheckInsArray patient = xs) \<and>
   (truthy patient \<and> lookupProp patient ''checkIns'' = JObj ps \<longrightarrow>
      getCheckInsArray patient = map snd ps) \<and>
   (lookupProp patient ''checkIns'' = JNull \<longrightarrow> getCheckInsArray patient = []) \<and>
   (lookupProp patient ''checkIns'' = JBool b \<longrightarrow> getCheckInsArray patient = []) \<and>
   (lookupProp patient ''checkIns'' = JNum r \<longrightarrow> getCheckInsArray patient = []) \<and>
   (lookupProp patient ''checkIns'' = JNaN \<longrightarrow> getCheckInsArray patient = []) \<and>
   (truthy patient \<and> lookupProp patient ''checkIns'' = JStr s \<longrightarrow>
      getCheckInsArray patient = map (\<lambda>c. JStr [c]) s)"
  by (simp add: getCheckInsArray_def)

theorem getCheckInsArray_shapes_witness:
  "getCheckInsArray (JBool False) = [] \<and>
   getCheckInsArray (JObj [(''name'', JStr ''P'')]) = [] \<and>
   getCheckInsArray patientAB = [entryA, entryB] \<and>
   getCheckInsArray patientBA = [entryB, entryA] \<and>
   getCheckInsArray (JObj [(''checkIns'', JNull)]) = [] \<and>
   getCheckInsArray (JObj [(''checkIns'', JBool True)]) = [] \<and>
   getCheckInsArray (JObj [(''checkIns'', JNum 5)]) = [] \<and>
   getCheckInsArray (JObj [(''checkIns'', JNaN)]) = [] \<and>
   getCheckInsArray (JObj [(''checkIns'', JStr ''ab'')]) = [JStr ''a'', JStr ''b'']"
  using getCheckInsArray_shapes [where patient = "JBool False"]
    getCheckInsArray_shapes [where patient = "JObj [(''name'', JStr ''P'')]"]
    getCheckInsArray_shapes [where patient = patientAB and xs = "[entryA, entryB]"]
    getCheckInsArray_shapes [where patient = patientBA
      and ps = "[(''k2'', entryB), (''k1'', entryA)]"]
    getCheckInsArray_shapes [where patient = "JObj [(''checkIns'', JNull)]"]
    getCheckInsArray_shapes [where patient = "JObj [(''checkIns'', JBool True)]" and b = True]
    getCheckInsArray_shapes [where patient = "JObj [(''checkIns'', JNum 5)]" and r = 5]
    getCheckInsArray_shapes [where patient = "JObj [(''checkIns'', JNaN)]"]
    getCheckInsArray_shapes [where patient = "JObj [(''checkIns'', JStr ''ab'')]"
      and s = "''ab''"]
  by (simp add: patientAB_def patientBA_def)

text \<open>
  C4 as stated treats every other shape as empty. A string is not: \<^verbatim>\<open>Object.values\<close>
  enumerates its characters.
\<close>

theorem getCheckInsArray_string_counterexample:
  "getCheckInsArray (JObj [(''checkIns'', JStr ''ab'')]) = [JStr ''a'', JStr ''b''] \<and>
   getCheckInsArray (JObj [(''checkIns'', JStr ''ab'')]) \<noteq> []"
  by (simp add: getCheckInsArray_def)

subsection \<open>getLastCheck\<close>

text \<open>
  When every entry can be read, \<open>map\<close> and \<open>filter\<close> yield the entries that
  normalize; an entry that is null or undefined makes the whole call throw.
\<close>

lemma mapEntries_readable:
  "readable arr \<Longrightarrow>
   mapEntries rt arr = Inr (map (\<lambda>e. map_option (Pair e) (entryInstant rt e)) arr)"
  by (induction arr)
     (auto simp: readable_def getProp_def entryInstant_def split: option.splits)

lemma mapEntries_unreadable:
  "\<not> readable arr \<Longrightarrow> mapEntries rt arr = Inl TypeError"
  by (induction arr)
     (auto simp: readable_def getProp_def split: option.splits sum.splits error.splits)

lemma filterBoolean_map:
  "filterBoolean (map f xs) = List.map_filter f xs"
  by (induction xs) (auto simp: filterBoolean_def List.map_filter_simps split: option.splits)

lemma snd_parsedOf: "map snd (parsedOf rt arr) = validInstants rt arr"
  by (induction arr)
     (auto simp: parsedOf_def validInstants_def List.map_filter_simps split: option.splits)

lemma set_parsedOf:
  "set (parsedOf rt arr) = {(e, d). e \<in> set arr \<and> entryInstant rt e = Some d}"
  by (induction arr)
     (auto simp: parsedOf_def List.map_filter_simps split: option.splits)

lemma set_validInstants:
  "set (validInstants rt arr) = {d. \<exists>e \<in> set arr. entryInstant rt e = Some d}"
  by (induction arr)
     (auto simp: validInstants_def List.map_filter_simps split: option.splits)

text \<open>The head of the sorted array is an entry with the greatest instant.\<close>

lemma sortLatestFirst_head:
  assumes "sortLatestFirst ps = y # ys"
  shows "y \<in> set ps \<and> (\<forall>p \<in> set ps. snd p \<le> snd y)"
proof -
  have "sorted (map (\<lambda>p. - snd p) (y # ys))"
    using assms sorted_sort_key [of "\<lambda>p. - snd p" ps] by (simp add: sortLatestFirst_def)
  then have "\<forall>p \<in> set (y # ys). snd p \<le> snd y"
    by auto
  moreover have "set (y # ys) = set ps"
    using assms set_sort [of "\<lambda>p. - snd p" ps] by (simp add: sortLatestFirst_def)
  ultimately show ?thesis by auto
qed

lemma sortLatestFirst_Nil: "sortLatestFirst ps = [] \<longleftrightarrow> ps = []"
  by (metis length_0_conv length_sort sortLatestFirst_def)

lemma getLastCheck_none:
  assumes "readable (getCheckInsArray patient)"
    and "validInstants rt (getCheckInsArray patient) = []"
  shows "getLastCheck rt now patient = Inr noneCheck"
proof -
  have "parsedOf rt (getCheckInsArray patient) = []"
    using assms(2) snd_parsedOf [of rt "getCheckInsArray patient"] by simp
  then show ?thesis
    using assms(1)
    by (simp add: getLastCheck_def Let_def mapEntries_readable filterBoolean_map
        parsedOf_def [symmetric] sortLatestFirst_def)
qed

lemma getLastCheck_latest:
  assumes "readable (getCheckInsArray patient)"
    and "validInstants rt (getCheckInsArray patient) \<noteq> []"
  shows "\<exists>e \<in> set (getCheckInsArray patient).
           entryInstant rt e = Some (Max (set (validInstants rt (getCheckInsArray patient)))) \<and>
           getLastCheck rt now patient =
             Inr \<lparr>display = toLocaleString rt (Max (set (validInstants rt (getCheckInsArray patient)))),
                  date = Some (Max (set (validInstants rt (getCheckInsArray patient)))),
                  staff = orElse (lookupProp e ''staff'') (JStr []),
                  isOverdue = jsGreater rt
                    (minutesSince now (Max (set (validInstants rt (getCheckInsArray patient)))))
                    (orElse (lookupProp patient ''checkInInterval'') (JNum 0))\<rparr>"
proof -
  let ?arr = "getCheckInsArray patient"
  let ?ps = "parsedOf rt ?arr"
  have ps: "?ps \<noteq> []"
    using assms(2) snd_parsedOf [of rt ?arr] by auto
  then obtain y ys where sorted: "sortLatestFirst ?ps = y # ys"
    using sortLatestFirst_Nil [of ?ps] by (cases "sortLatestFirst ?ps") auto
  from sortLatestFirst_head [OF sorted]
  have y_in: "y \<in> set ?ps" and y_max: "\<forall>p \<in> set ?ps. snd p \<le> snd y"
    by auto
  have inst: "set (validInstants rt ?arr) = snd ` set ?ps"
    using snd_parsedOf [of rt ?arr] by (metis set_map)
  have "Max (set (validInstants rt ?arr)) = snd y"
    unfolding inst using y_in y_max by (intro Max_eqI) auto
  moreover have "fst y \<in> set ?arr" "entryInstant rt (fst y) = Some (snd y)"
    using y_in by (auto simp: set_parsedOf)
  moreover have "?arr \<noteq> []"
    using assms(2) by (auto simp: validInstants_def List.map_filter_simps)
  ultimately show ?thesis
    using assms(1) sorted
    by (intro bexI [of _ "fst y"])
       (simp_all add: getLastCheck_def Let_def mapEntries_readable filterBoolean_map
          parsedOf_def [symmetric])
qed

lemma example_readable:
  "readable (getCheckInsArray patientAB)" "readable (getCheckInsArray patientBA)"
  "readable (getCheckInsArray patientA)" "readable (getCheckInsArray patientBad)"
  by (simp_all add: example_checkIns readable_def entries_not_nullish)

lemma example_validInstants:
  "validInstants exampleHost (getCheckInsArray patientAB) = [1763618125000, 1763625025000]"
  "validInstants exampleHost (getCheckInsArray patientA) = [1763618125000]"
  by (simp_all add: example_checkIns validInstants_def List.map_filter_simps
      entryA_instant entryB_instant)

text \<open>
  C7. For a patient whose check-in history is empty, and for a patient none of whose
  entries normalizes, \<^verbatim>\<open>getLastCheck\<close> returns exactly
  \<^verbatim>\<open>{ display: "None", date: null, staff: "", isOverdue: true }\<close>: only unparseable
  entries are the same as no entries. (The entries are check-in entries, not null or
  undefined, whose \<^verbatim>\<open>time\<close> could not be read.)
\<close>

theorem getLastCheck_no_valid_entry:
  "(getCheckInsArray patient = [] \<longrightarrow>
      getLastCheck rt now patient =
        Inr \<lparr>display = ''None'', date = None, staff = JStr [], isOverdue = True\<rparr>) \<and>
   (readable (getCheckInsArray patient) \<and>
    (\<forall>e \<in> set (getCheckInsArray patient). entryInstant rt e = None) \<longrightarrow>
      getLastCheck rt now patient =
        Inr \<lparr>display = ''None'', date = None, staff = JStr [], isOverdue = True\<rparr>)"
proof (intro conjI impI)
  assume "getCheckInsArray patient = []"
  then show "getLastCheck rt now patient =
      Inr \<lparr>display = ''None'', date = None, staff = JStr [], isOverdue = True\<rparr>"
    by (simp add: getLastCheck_def noneCheck_def)
next
  assume a: "readable (getCheckInsArray patient) \<and>
    (\<forall>e \<in> set (getCheckInsArray patient). entryInstant rt e = None)"
  then have "validInstants rt (getCheckInsArray patient) = []"
    by (simp add: validInstants_def map_filter_def filter_empty_conv)
  with a show "getLastCheck rt now patient =
      Inr \<lparr>display = ''None'', date = None, staff = JStr [], isOverdue = True\<rparr>"
    using getLastCheck_none [of patient rt now] by (simp add: noneCheck_def)
qed

theorem getLastCheck_no_valid_entry_witness:
  "getLastCheck exampleHost 1763625325000 patientEmpty =
     Inr \<lparr>display = ''None'', date = None, staff = JStr [], isOverdue = True\<rparr> \<and>
   getLastCheck exampleHost 1763625325000 patientBad =
     Inr \<lparr>display = ''None'', date = None, staff = JStr [], isOverdue = True\<rparr>"
proof -
  have "\<forall>e \<in> set (getCheckInsArray patientBad). entryInstant exampleHost e = None"
    by (simp add: example_checkIns entryBad_instant)
  then show ?thesis
    using getLastCheck_no_valid_entry [of patientEmpty exampleHost 1763625325000]
      getLastCheck_no_valid_entry [of patientBad exampleHost 1763625325000]
      example_readable(4) example_checkIns(5)
    by simp
qed

text \<open>
  C1. For a patient with at least one entry that normalizes, \<^verbatim>\<open>getLastCheck\<close> takes
  the latest instant, computes \<open>minutesSince = (now - latest) / 60000\<close> and sets
  \<^verbatim>\<open>isOverdue\<close> to true exactly when \<open>minutesSince\<close> is strictly greater than the
  patient's \<^verbatim>\<open>checkInInterval\<close>, a whole number \<open>k\<close> of minutes, taken as 0 when the
  field is missing (or otherwise falsy): a latest check-in exactly \<open>k\<close> minutes old is
  not overdue, a strictly older one is, be it by one millisecond. The interval is an
  integer, as the patient record has it, and the two instants are at most \<open>2^53\<close> ms
  apart: there the exact quotient of the model and the double of the code give the same
  comparison.
\<close>

theorem getLastCheck_overdue_strict:
  assumes "readable (getCheckInsArray patient)"
    and "validInstants rt (getCheckInsArray patient) \<noteq> []"
    and "latest = Max (set (validInstants rt (getCheckInsArray patient)))"
    and "lookupProp patient ''checkInInterval'' = JNum (of_int k) \<or>
         \<not> truthy (lookupProp patient ''checkInInterval'') \<and> k = 0"
    and "\<bar>now - latest\<bar> \<le> 2 ^ 53"
  shows "\<exists>r. getLastCheck rt now patient = Inr r \<and>
           date r = Some latest \<and>
           minutesSince now latest = of_int (now - latest) / 60000 \<and>
           isOverdue r = (minutesSince now latest > of_int k) \<and>
           isOverdue r = (now - latest > k * 60000) \<and>
           (now - latest = k * 60000 \<longrightarrow> \<not> isOverdue r) \<and>
           (now - latest > k * 60000 \<longrightarrow> isOverdue r)"
proof -
  from getLastCheck_latest [OF assms(1,2), of now] assms(3)
  obtain e where r: "getLastCheck rt now patient =
      Inr \<lparr>display = toLocaleString rt latest, date = Some latest,
           staff = orElse (lookupProp e ''staff'') (JStr []),
           isOverdue = jsGreater rt (minutesSince now latest)
             (orElse (lookupProp patient ''checkInInterval'') (JNum 0))\<rparr>"
    by auto
  have iv: "ToNumber rt (orElse (lookupProp patient ''checkInInterval'') (JNum 0)) =
      Some (of_int k)"
    using assms(4) by (auto simp: orElse_def)
  have m: "minutesSince now latest = of_int (now - latest) / 60000"
    by (simp add: minutesSince_def)
  have e: "(of_int k :: rat) * 60000 = of_int (k * 60000)"
    by simp
  have "(minutesSince now latest > of_int k) =
      ((of_int k :: rat) * 60000 < of_int (now - latest))"
    unfolding m by (simp add: pos_less_divide_eq del: of_int_diff)
  also have "\<dots> = ((of_int (k * 60000) :: rat) < of_int (now - latest))"
    unfolding e ..
  also have "\<dots> = (k * 60000 < now - latest)"
    by (rule of_int_less_iff)
  finally have cmp: "(minutesSince now latest > of_int k) = (now - latest > k * 60000)" .
  show ?thesis
    using r iv m cmp by (auto simp: jsGreater_def)
qed

theorem getLastCheck_overdue_strict_witness:
  "(\<exists>r. getLastCheck exampleHost 1763621725000 patientA = Inr r \<and>
        date r = Some 1763618125000 \<and> \<not> isOverdue r) \<and>
   (\<exists>r. getLastCheck exampleHost 1763621725001 patientA = Inr r \<and>
        date r = Some 1763618125000 \<and> isOverdue r)"
proof -
  have v: "validInstants exampleHost (getCheckInsArray patientA) \<noteq> []"
    and m: "1763618125000 = Max (set (validInstants exampleHost (getCheckInsArray patientA)))"
    by (simp_all add: example_validInstants)
  have i: "lookupProp patientA ''checkInInterval'' = JNum (of_int 60) \<or>
      \<not> truthy (lookupProp patientA ''checkInInterval'') \<and> (60 :: int) = 0"
    by (simp add: example_interval)
  have b0: "\<bar>1763621725000 - 1763618125000\<bar> \<le> (2 :: int) ^ 53"
    and b1: "\<bar>1763621725001 - 1763618125000\<bar> \<le> (2 :: int) ^ 53"
    by simp_all
  show ?thesis
    using getLastCheck_overdue_strict [OF example_readable(3) v m i b0]
      getLastCheck_overdue_strict [OF example_readable(3) v m i b1]
    by auto
qed

text \<open>
  C10. When the latest valid instant lies strictly after \<open>now\<close>, that entry is still
  the winner, \<open>minutesSince\<close> is negative, and \<^verbatim>\<open>isOverdue\<close> is false for every
  interval that is not negative (and for one that converts to NaN).
\<close>

theorem future_checkin_never_overdue:
  assumes "readable (getCheckInsArray patient)"
    and "validInstants rt (getCheckInsArray patient) \<noteq> []"
    and "latest = Max (set (validInstants rt (getCheckInsArray patient)))"
    and "now < latest"
    and "\<forall>n. ToNumber rt (orElse (lookupProp patient ''checkInInterval'') (JNum 0)) = Some n
           \<longrightarrow> 0 \<le> n"
  shows "\<exists>r. getLastCheck rt now patient = Inr r \<and> date r = Some latest \<and>
           minutesSince now latest < 0 \<and> \<not> isOverdue r"
proof -
  from getLastCheck_latest [OF assms(1,2), of now] assms(3)
  obtain e where r: "getLastCheck rt now patient =
      Inr \<lparr>display = toLocaleString rt latest, date = Some latest,
           staff = orElse (lookupProp e ''staff'') (JStr []),
           isOverdue = jsGreater rt (minutesSince now latest)
             (orElse (lookupProp patient ''checkInInterval'') (JNum 0))\<rparr>"
    by auto
  have m: "minutesSince now latest < 0"
    using assms(4) by (simp add: minutesSince_def field_simps)
  then have "\<not> jsGreater rt (minutesSince now latest)
      (orElse (lookupProp patient ''checkInInterval'') (JNum 0))"
    using assms(5) by (auto simp: jsGreater_def split: option.splits)
  with r m show ?thesis by simp
qed

theorem future_checkin_never_overdue_witness:
  "\<exists>r. getLastCheck exampleHost 1763618000000 patientA = Inr r \<and>
        date r = Some 1763618125000 \<and> minutesSince 1763618000000 1763618125000 < 0 \<and>
        \<not> isOverdue r"
proof -
  have v: "validInstants exampleHost (getCheckInsArray patientA) \<noteq> []"
    and m: "1763618125000 = Max (set (validInstants exampleHost (getCheckInsArray patientA)))"
    by (simp_all add: example_validInstants)
  have f: "(1763618000000 :: int) < 1763618125000"
    by simp
  have i: "\<forall>n. ToNumber exampleHost (orElse (lookupProp patientA ''checkInInterval'') (JNum 0))
      = Some n \<longrightarrow> 0 \<le> n"
    by (simp add: example_interval orElse_def)
  show ?thesis
    using future_checkin_never_overdue [OF example_readable(3) v m f i] .
qed

text \<open>
  C5. When one entry has a valid instant strictly later than that of every other entry,
  \<^verbatim>\<open>getLastCheck\<close> selects it, wherever it stands among the check-ins: the result has
  its instant, and its \<^verbatim>\<open>staff\<close>, or the empty string when that is absent. For two
  entries with distinct valid instants this is the later one, in either order.
\<close>

theorem getLastCheck_selects_later:
  assumes "readable (getCheckInsArray patient)"
    and "winner \<in> set (getCheckInsArray patient)"
    and "entryInstant rt winner = Some t"
    and "\<forall>e \<in> set (getCheckInsArray patient). e \<noteq> winner \<longrightarrow>
           (\<forall>t'. entryInstant rt e = Some t' \<longrightarrow> t' < t)"
  shows "\<exists>r. getLastCheck rt now patient = Inr r \<and> date r = Some t \<and>
           display r = toLocaleString rt t \<and>
           staff r = orElse (lookupProp winner ''staff'') (JStr []) \<and>
           (lookupProp winner ''staff'' = JUndefined \<longrightarrow> staff r = JStr [])"
proof -
  let ?arr = "getCheckInsArray patient"
  let ?V = "set (validInstants rt ?arr)"
  have t_in: "t \<in> ?V"
    using assms(2,3) by (auto simp: set_validInstants)
  have t_max: "\<forall>d \<in> ?V. d \<le> t"
  proof
    fix d assume "d \<in> ?V"
    then obtain e where e: "e \<in> set ?arr" "entryInstant rt e = Some d"
      by (auto simp: set_validInstants)
    show "d \<le> t"
    proof (cases "e = winner")
      case True
      with e assms(3) show ?thesis by simp
    next
      case False
      with e assms(4) show ?thesis by fastforce
    qed
  qed
  have max: "Max ?V = t"
    using t_in t_max by (intro Max_eqI) auto
  have ne: "validInstants rt ?arr \<noteq> []"
    using t_in by auto
  from getLastCheck_latest [OF assms(1) ne, of now] max
  obtain e where e: "e \<in> set ?arr" "entryInstant rt e = Some t"
    and r: "getLastCheck rt now patient =
      Inr \<lparr>display = toLocaleString rt t, date = Some t,
           staff = orElse (lookupProp e ''staff'') (JStr []),
           isOverdue = jsGreater rt (minutesSince now t)
             (orElse (lookupProp patient ''checkInInterval'') (JNum 0))\<rparr>"
    by auto
  have "e = winner"
    using e assms(4) by fastforce
  with r show ?thesis
    by (simp add: orElse_def)
qed

theorem getLastCheck_selects_later_witness:
  "(\<exists>r. getLastCheck exampleHost 1763625325000 patientAB = Inr r \<and>
        date r = Some 1763625025000 \<and> staff r = JStr ''B'') \<and>
   (\<exists>r. getLastCheck exampleHost 1763625325000 patientBA = Inr r \<and>
        date r = Some 1763625025000 \<and> staff r = JStr ''B'')"
proof -
  have w: "entryB \<in> set (getCheckInsArray patientAB)" "entryB \<in> set (getCheckInsArray patientBA)"
    by (simp_all add: example_checkIns)
  have l: "\<forall>e \<in> set (getCheckInsArray patientAB). e \<noteq> entryB \<longrightarrow>
      (\<forall>t'. entryInstant exampleHost e = Some t' \<longrightarrow> t' < 1763625025000)"
    "\<forall>e \<in> set (getCheckInsArray patientBA). e \<noteq> entryB \<longrightarrow>
      (\<forall>t'. entryInstant exampleHost e = Some t' \<longrightarrow> t' < 1763625025000)"
    by (simp_all add: example_checkIns entryA_instant)
  show ?thesis
    using getLastCheck_selects_later [OF example_readable(1) w(1) entryB_instant l(1),
        of 1763625325000]
      getLastCheck_selects_later [OF example_readable(2) w(2) entryB_instant l(2),
        of 1763625325000]
    by (auto simp: entry_staff orElse_def)
qed










subsection \<open>The hourly slots\<close>

lemma sub_multiple_mod: "(x - k * 3600000) mod 3600000 = x mod (3600000 :: int)"
  using mod_mult_self1 [of "x - k * 3600000" k 3600000] by simp

lemma setMinutes0_steady:
  assumes "LocalTZA rt t True = c"
    and "LocalTZA rt (t + c - (t + c) mod 3600000) False = c"
  shows "setMinutes0 rt t = t - (t + c) mod 3600000"
  using assms by (simp add: setMinutes0_def Let_def msPerHour_def)

lemma length_slotsFrom: "length (slotsFrom rt now n) = n"
  by (induction n) auto

lemma nth_slotsFrom:
  "k < n \<Longrightarrow> slotsFrom rt now n ! k = setMinutes0 rt (now - int (n - 1 - k) * 3600000)"
proof (induction n arbitrary: k)
  case 0
  then show ?case by simp
next
  case (Suc n)
  then show ?case by (cases k) auto
qed

text \<open>
  Where the offset of local time is \<open>c\<close> at the 24 instants the loop reads, and also for
  the 24 tops of the local hour it computes, the loop does build the slots of the last
  24 hours: on a host without zone transitions always, on any other host except around a
  transition.
\<close>

lemma slot_steady:
  assumes "\<forall>i < 24. LocalTZA rt (now - int i * 3600000) True = c \<and>
      LocalTZA rt (now - int i * 3600000 + c - (now - int i * 3600000 + c) mod 3600000) False
        = c"
    and "k < 24"
  shows "buildSlots rt now ! k = now - int (23 - k) * 3600000 - (now + c) mod 3600000"
proof -
  let ?t = "now - int (23 - k) * 3600000"
  have "23 - k < 24"
    by simp
  with assms(1) have "LocalTZA rt ?t True = c"
    and "LocalTZA rt (?t + c - (?t + c) mod 3600000) False = c"
    by blast+
  then have "setMinutes0 rt ?t = ?t - (?t + c) mod 3600000"
    by (rule setMinutes0_steady)
  moreover have "(?t + c) mod 3600000 = (now + c) mod 3600000"
    using sub_multiple_mod [of "now + c" "int (23 - k)"] by (simp add: algebra_simps)
  moreover have "buildSlots rt now ! k = setMinutes0 rt ?t"
    using assms(2) by (simp add: buildSlots_def nth_slotsFrom)
  ultimately show ?thesis
    by simp
qed

lemma buildSlots_steady_offset:
  assumes "\<forall>i < 24. LocalTZA rt (now - int i * 3600000) True = c \<and>
      LocalTZA rt (now - int i * 3600000 + c - (now - int i * 3600000 + c) mod 3600000) False
        = c"
  shows "length (buildSlots rt now) = 24 \<and>
     (\<forall>k < 24. (buildSlots rt now ! k + c) mod 3600000 = 0) \<and>
     (\<forall>k < 23. buildSlots rt now ! Suc k = buildSlots rt now ! k + 3600000) \<and>
     last (buildSlots rt now) \<le> now \<and> now - 3600000 < last (buildSlots rt now)"
proof (intro conjI allI impI)
  show len: "length (buildSlots rt now) = 24"
    by (simp add: buildSlots_def length_slotsFrom)
  show "(buildSlots rt now ! k + c) mod 3600000 = 0" if "k < 24" for k
  proof -
    have "buildSlots rt now ! k + c = (now + c) - (now + c) mod 3600000 - int (23 - k) * 3600000"
      using slot_steady [OF assms that] by simp
    also have "\<dots> mod 3600000 = ((now + c) - (now + c) mod 3600000) mod 3600000"
      by (rule sub_multiple_mod)
    also have "\<dots> = 0"
      by (simp add: minus_mod_eq_mult_div)
    finally show ?thesis .
  qed
  show "buildSlots rt now ! Suc k = buildSlots rt now ! k + 3600000" if "k < 23" for k
  proof -
    have "int (23 - k) = int (23 - Suc k) + 1"
      using that by simp
    then show ?thesis
      using slot_steady [OF assms, of k] slot_steady [OF assms, of "Suc k"] that
      by simp
  qed
  have last: "last (buildSlots rt now) = buildSlots rt now ! 23"
    using len last_conv_nth [of "buildSlots rt now"] by (cases "buildSlots rt now") auto
  have m: "0 \<le> (now + c) mod 3600000" "(now + c) mod 3600000 < 3600000"
    by simp_all
  show "last (buildSlots rt now) \<le> now"
    using last slot_steady [OF assms, of 23] m by simp
  show "now - 3600000 < last (buildSlots rt now)"
    using last slot_steady [OF assms, of 23] m by simp
qed

text \<open>So it is on \<open>newYorkHost\<close> two days after the transition, at 06:30 UTC.\<close>

lemma buildSlots_newYork_later:
  "length (buildSlots newYorkHost 1762237800000) = 24 \<and>
   (\<forall>k < 23. buildSlots newYorkHost 1762237800000 ! Suc k =
      buildSlots newYorkHost 1762237800000 ! k + 3600000) \<and>
   last (buildSlots newYorkHost 1762237800000) \<le> 1762237800000 \<and>
   1762237800000 - 3600000 < last (buildSlots newYorkHost 1762237800000)"
proof -
  have "LocalTZA newYorkHost (1762237800000 - int i * 3600000) True = - 18000000 \<and>
      LocalTZA newYorkHost (1762237800000 - int i * 3600000 + - 18000000 -
        (1762237800000 - int i * 3600000 + - 18000000) mod 3600000) False = - 18000000"
    if "i < 24" for i
  proof -
    have i: "int i * 3600000 \<le> 82800000"
      using that by simp
    have "(1762237800000 - int i * 3600000 + - 18000000) mod 3600000 < 3600000"
      by simp
    with i show ?thesis
      by (simp add: newYorkHost_def)
  qed
  then have "\<forall>i < 24. LocalTZA newYorkHost (1762237800000 - int i * 3600000) True = - 18000000 \<and>
      LocalTZA newYorkHost (1762237800000 - int i * 3600000 + - 18000000 -
        (1762237800000 - int i * 3600000 + - 18000000) mod 3600000) False = - 18000000"
    by blast
  from buildSlots_steady_offset [OF this] show ?thesis
    by blast
qed

text \<open>
  C3. The loop is to \<^emph>\<open>build 24 hourly slots ending at current hour\<close>: for every
  \<open>now\<close>, exactly 24 slot starts, oldest first, each at the top of its hour, each
  exactly 3,600,000 ms after the one before, the last one at most \<open>now\<close> and later than
  \<open>now\<close> minus one hour. In the hour after the host's zone has left daylight-saving time
  the code does not do so. At 06:30 UTC on \<open>newYorkHost\<close> it is 01:30 local time for the
  second time; \<^verbatim>\<open>setMinutes(0, 0, 0)\<close> lands on the first 01:00 of the two, which is
  05:00 UTC, and the slot of one hour before lands there too. The last two slots both
  start at 05:00 UTC, ninety minutes before \<open>now\<close>, and no slot starts in the current
  hour.
\<close>

theorem buildSlots_fall_back_hour:
  "buildSlots newYorkHost 1762065000000 ! 21 = 1762056000000 \<and>
   buildSlots newYorkHost 1762065000000 ! 22 = 1762059600000 \<and>
   buildSlots newYorkHost 1762065000000 ! 23 = 1762059600000 \<and>
   last (buildSlots newYorkHost 1762065000000) = 1762059600000 \<and>
   \<not> 1762065000000 - 3600000 < last (buildSlots newYorkHost 1762065000000)"
  by code_simp

subsection \<open>hasCheckInInSlot\<close>

lemma someInSlot_readable:
  "readable arr \<Longrightarrow>
   someInSlot rt start end arr =
     Inr (\<exists>e \<in> set arr. \<exists>t. entryInstant rt e = Some t \<and> start \<le> t \<and> t < end)"
  by (induction arr)
     (auto simp: readable_def getProp_def entryInstant_def split: option.splits)

lemma someInSlot_returns:
  "someInSlot rt start end arr = Inr b \<Longrightarrow>
   b = (\<exists>e \<in> set arr. \<exists>t. entryInstant rt e = Some t \<and> start \<le> t \<and> t < end)"
proof (induction arr arbitrary: b)
  case Nil
  then show ?case by simp
next
  case (Cons e es)
  show ?case
  proof (cases "nullish e")
    case True
    with Cons.prems show ?thesis by (simp add: getProp_def)
  next
    case False
    show ?thesis
    proof (cases "\<exists>t. entryInstant rt e = Some t \<and> start \<le> t \<and> t < end")
      case True
      with False Cons.prems show ?thesis
        by (auto simp: getProp_def entryInstant_def)
    next
      case no: False
      with False Cons.prems have "someInSlot rt start end es = Inr b"
        by (auto simp: getProp_def entryInstant_def split: option.splits if_splits)
      from Cons.IH [OF this] no show ?thesis by auto
    qed
  qed
qed

text \<open>
  C6. \<^verbatim>\<open>hasCheckInInSlot\<close> returns true if and only if some entry normalizes to an
  instant \<open>t\<close> with \<open>slot \<le> t < slot + 3,600,000\<close>: an entry that fails to normalize
  never counts, and neither does an instant equal to the upper bound. It returns for
  every patient whose entries can all be read, and whenever it returns, this is its
  result.
\<close>

theorem hasCheckInInSlot_iff:
  "(readable (getCheckInsArray patient) \<longrightarrow>
      hasCheckInInSlot rt patient slot =
        Inr (\<exists>e \<in> set (getCheckInsArray patient).
               \<exists>t. entryInstant rt e = Some t \<and> slot \<le> t \<and> t < slot + 3600000)) \<and>
   (\<forall>b. hasCheckInInSlot rt patient slot = Inr b \<longrightarrow>
      b = (\<exists>e \<in> set (getCheckInsArray patient).
             \<exists>t. entryInstant rt e = Some t \<and> slot \<le> t \<and> t < slot + 3600000))"
proof (intro conjI impI allI)
  assume "readable (getCheckInsArray patient)"
  then show "hasCheckInInSlot rt patient slot =
      Inr (\<exists>e \<in> set (getCheckInsArray patient).
             \<exists>t. entryInstant rt e = Some t \<and> slot \<le> t \<and> t < slot + 3600000)"
    unfolding hasCheckInInSlot_def Let_def by (rule someInSlot_readable)
next
  fix b
  assume "hasCheckInInSlot rt patient slot = Inr b"
  then show "b = (\<exists>e \<in> set (getCheckInsArray patient).
             \<exists>t. entryInstant rt e = Some t \<and> slot \<le> t \<and> t < slot + 3600000)"
    unfolding hasCheckInInSlot_def Let_def by (rule someInSlot_returns)
qed

theorem hasCheckInInSlot_iff_witness:
  "hasCheckInInSlot exampleHost patientAB 1763614800000 = Inr True \<and>
   hasCheckInInSlot exampleHost patientA 1763614525000 = Inr False \<and>
   hasCheckInInSlot exampleHost patientBad 1763614800000 = Inr False"
proof -
  have a: "hasCheckInInSlot exampleHost patientAB 1763614800000 = Inr True"
    using hasCheckInInSlot_iff [of patientAB exampleHost 1763614800000] example_readable(1)
    by (simp add: example_checkIns entryA_instant entryB_instant)
  have b: "hasCheckInInSlot exampleHost patientA 1763614525000 = Inr False"
    using hasCheckInInSlot_iff [of patientA exampleHost 1763614525000] example_readable(3)
    by (simp add: example_checkIns entryA_instant)
  have c: "hasCheckInInSlot exampleHost patientBad 1763614800000 = Inr False"
    using hasCheckInInSlot_iff [of patientBad exampleHost 1763614800000] example_readable(4)
    by (simp add: example_checkIns entryBad_instant)
  show ?thesis
    using a b c by simp
qed

end
